theory Spec2Isabelle
  imports Main
begin

unbundle bit_operations_syntax

section \<open>FlashNet screen transmitter (pc\_sender.js)\<close>

text \<open>
  The transmitter is the single function \<open>flashnetSend(pulsewidth, data, elem)\<close>.
  Its local variables \<open>state\<close>, \<open>checksum\<close>, \<open>queue\<close> and \<open>timer\<close> are captured
  by the closures \<open>encode\<close> and the interval callback, so one record holds the whole
  activation. JavaScript numbers that only ever hold integers are \<open>int\<close>; on integers
  \<open>b & mask\<close> with \<open>0 < mask < 2^31\<close> and \<open>checksum & 0xff\<close> agree with the bitwise
  \<open>AND\<close> of \<open>int\<close>.
\<close>

subsection \<open>Data model\<close>

text \<open>
  The DOM element: the only property the code touches is \<open>style.backgroundColor\<close>;
  everything else the element has is kept in \<open>props\<close>.
\<close>

record 'p HTMLElement =
  style_backgroundColor :: string
  props :: 'p

text \<open>
  The activation of one \<open>flashnetSend\<close> call. \<open>state\<close> starts as the number 0 and
  is afterwards a boolean; it is only read through \<open>!state\<close> and \<open>state ? _ : _\<close>, so
  it is a \<open>bool\<close>. \<open>timer\<close> says whether the interval set by \<open>setInterval\<close> is still
  scheduled. \<open>assigned\<close> is the history of the values assigned to
  \<open>elem.style.backgroundColor\<close> by this activation, oldest first.
\<close>

record 'p sender =
  state :: bool
  checksum :: int
  queue :: "int list"
  pulsewidth :: int
  elem :: "'p HTMLElement"
  timer :: bool
  assigned :: "string list"

subsection \<open>Encoding (lines 31--57)\<close>

text \<open>
  The loop \<open>for (let mask = 0x80; mask; mask >>= 1) queue.push((b & mask) ? 2 : 1)\<close>.
  The loop variable \<open>mask\<close> (here \<open>msk\<close>) is a non-negative integer, halved until
  it is 0.
\<close>

function encode_bits :: "int \<Rightarrow> nat \<Rightarrow> int list \<Rightarrow> int list" where
  "encode_bits b msk q =
     (if msk = 0 then q
      else encode_bits b (msk div 2) (q @ [if b AND int msk \<noteq> 0 then 2 else 1]))"
  by pat_completeness auto
termination
  by (relation "measure (\<lambda>(b, msk, q). msk)") auto

declare encode_bits.simps [simp del]

text \<open>The closure \<open>encode\<close>: \<open>checksum += b\<close>, then the bit loop from \<open>0x80\<close>.\<close>

definition encode :: "int \<Rightarrow> 'p sender \<Rightarrow> 'p sender" where
  "encode b s = s\<lparr>checksum := checksum s + b, queue := encode_bits b 0x80 (queue s)\<rparr>"

text \<open>\<open>data.forEach(encode)\<close>: the elements in order.\<close>

definition forEach :: "('a \<Rightarrow> 's \<Rightarrow> 's) \<Rightarrow> 'a list \<Rightarrow> 's \<Rightarrow> 's" where
  "forEach f xs s = fold f xs s"

text \<open>The declarations of lines 32--37, before anything is encoded.\<close>

definition init :: "int \<Rightarrow> 'p HTMLElement \<Rightarrow> 'p sender" where
  "init pw e =
     \<lparr>state = False, checksum = 0, queue = [1,1,1,1,1,1,1,1,1,1,1,1,1,1,3],
      pulsewidth = pw, elem = e, timer = False, assigned = []\<rparr>"

text \<open>
  The call itself: encode the data, encode \<open>checksum & 0xff\<close>, push the end pulse,
  and schedule the interval. It returns before the first tick.
\<close>

definition flashnetSend :: "int \<Rightarrow> int list \<Rightarrow> 'p HTMLElement \<Rightarrow> 'p sender" where
  "flashnetSend pw data e =
     (let s1 = forEach encode data (init pw e);
          s2 = encode (checksum s1 AND 0xff) s1;
          s3 = s2\<lparr>queue := queue s2 @ [4]\<rparr>
      in s3\<lparr>timer := True\<rparr>)"

subsection \<open>The interval callback (lines 60--72)\<close>

text \<open>
  One run of the callback. \<open>--queue[0]\<close> stores the decremented head also when the
  pulse goes on.
\<close>

definition tick :: "'p sender \<Rightarrow> 'p sender" where
  "tick s =
     (case queue s of
        [] \<Rightarrow>
          s\<lparr>elem := (elem s)\<lparr>style_backgroundColor := ''#ccc''\<rparr>,
            assigned := assigned s @ [''#ccc''],
            timer := False\<rparr>
      | w # rest \<Rightarrow>
          if w - 1 \<le> 0 then
            (let st = \<not> state s; c = (if st then ''#888'' else ''#eee'')
             in s\<lparr>queue := rest, state := st,
                  elem := (elem s)\<lparr>style_backgroundColor := c\<rparr>,
                  assigned := assigned s @ [c]\<rparr>)
          else s\<lparr>queue := (w - 1) # rest\<rparr>)"

text \<open>
  One period of the interval: the callback runs while the interval is scheduled, and
  not after \<open>clearInterval(timer)\<close>.
\<close>

definition fire :: "'p sender \<Rightarrow> 'p sender" where
  "fire s = (if timer s then tick s else s)"

subsection \<open>The frame as the specification words it\<close>

text \<open>
  The specification's symbols and their canonical ratios, and the frame
  \<open>SYNC \<times> 14, START, data bits, checksum bits, END\<close> with the bits of a byte
  most significant first. These follow the specification; the theorems compare them
  with what \<open>flashnetSend\<close> queues.
\<close>

datatype PulseSymbol = SYNC | START | BIT0 | BIT1 | END

fun ratio :: "PulseSymbol \<Rightarrow> int" where
  "ratio SYNC = 1"
| "ratio BIT0 = 1"
| "ratio BIT1 = 2"
| "ratio START = 3"
| "ratio END = 4"

definition spec_bit :: "int \<Rightarrow> nat \<Rightarrow> PulseSymbol" where
  "spec_bit b k = (if (b div 2 ^ k) mod 2 = 1 then BIT1 else BIT0)"

definition spec_byte :: "int \<Rightarrow> PulseSymbol list" where
  "spec_byte b = map (spec_bit b) [7, 6, 5, 4, 3, 2, 1, 0]"

definition spec_checksum :: "int list \<Rightarrow> int" where
  "spec_checksum payload = sum_list payload mod 256"

definition spec_frame :: "int list \<Rightarrow> PulseSymbol list" where
  "spec_frame payload =
     replicate 14 SYNC @ [START] @ concat (map spec_byte payload)
       @ spec_byte (spec_checksum payload) @ [END]"

text \<open>The range of a byte of the payload.\<close>

definition is_byte :: "int \<Rightarrow> bool" where
  "is_byte b = (0 \<le> b \<and> b \<le> 255)"

text \<open>
  The specification's encoder contract: a payload longer than 70 bytes fails with
  \<open>PayloadTooLarge\<close>, any other payload gives its frame.
\<close>

datatype error = PayloadTooLarge

definition spec_encode :: "int list \<Rightarrow> error + PulseSymbol list" where
  "spec_encode payload =
     (if length payload > 70 then Inl PayloadTooLarge else Inr (spec_frame payload))"

text \<open>
  The byte that eight bit pulses stand for, most significant first (width 2 is a
  1-bit, width 1 a 0-bit): how a receiver reads what \<open>encode\<close> queued.
\<close>

definition pulses_to_byte :: "int list \<Rightarrow> int" where
  "pulses_to_byte ws = foldl (\<lambda>acc w. 2 * acc + (w - 1)) 0 ws"

text \<open>
  The colours of the first \<open>m\<close> pulse boundaries as the claim words them: the
  \<open>k\<close>-th is \<open>#888\<close> for odd \<open>k\<close> and \<open>#eee\<close> for even \<open>k\<close>, counting from 1.
\<close>

definition boundary_colour :: "nat \<Rightarrow> string" where
  "boundary_colour k = (if odd k then ''#888'' else ''#eee'')"

definition boundary_colours :: "nat \<Rightarrow> string list" where
  "boundary_colours m = map boundary_colour [1..<Suc m]"

text \<open>
  The invariant of one transmission of \<open>m\<close> pulses on an element that was \<open>e\<close> at
  the call: while the interval is scheduled, one colour has been assigned per pulse
  already shifted off the queue, and \<open>state\<close> is the parity of their number; after
  \<open>clearInterval\<close> the queue is empty and \<open>#ccc\<close> was assigned last.
\<close>

definition tx_inv :: "nat \<Rightarrow> 'p HTMLElement \<Rightarrow> 'p sender \<Rightarrow> bool" where
  "tx_inv m e s =
     (length (queue s) \<le> m \<and> props (elem s) = props e \<and>
      (if timer s then
         assigned s = boundary_colours (m - length (queue s)) \<and>
         state s = odd (m - length (queue s)) \<and>
         style_backgroundColor (elem s) =
           (if m - length (queue s) = 0 then style_backgroundColor e
            else boundary_colour (m - length (queue s)))
       else
         queue s = [] \<and> assigned s = boundary_colours m @ [''#ccc''] \<and>
         style_backgroundColor (elem s) = ''#ccc''))"

section \<open>Properties\<close>

lemma encode_bits_0 [simp]: "encode_bits b 0 q = q"
  by (simp add: encode_bits.simps)

lemma encode_bits_step:
  "msk \<noteq> 0 \<Longrightarrow>
   encode_bits b msk q =
     encode_bits b (msk div 2) (q @ [if b AND int msk \<noteq> 0 then 2 else 1])"
  by (subst encode_bits.simps) simp

subsection \<open>What the call queues\<close>

lemma encode_bits_128:
  "encode_bits b 128 q =
     q @ map (\<lambda>k. if b AND 2 ^ k \<noteq> 0 then 2 else 1) [7, 6, 5, 4, 3, 2, 1, 0::nat]"
  by (simp add: encode_bits_step)

lemma and_pow_bit: "((b::int) AND 2 ^ k \<noteq> 0) = ((b div 2 ^ k) mod 2 = 1)"
  by (simp add: and_exp_eq_0_iff_not_bit bit_iff_odd odd_iff_mod_2_eq_one)

lemma ratio_spec_bit: "ratio (spec_bit b k) = (if b AND 2 ^ k \<noteq> 0 then 2 else 1)"
  unfolding spec_bit_def and_pow_bit by simp

lemma encode_bits_spec: "encode_bits b 128 q = q @ map ratio (spec_byte b)"
  unfolding encode_bits_128 spec_byte_def list.map ratio_spec_bit ..

lemma and_255: "(x::int) AND 255 = x mod 256"
  using take_bit_eq_mask [of 8 x] by (simp add: take_bit_eq_mod mask_eq_exp_minus_1)

lemma replicate_14: "replicate 14 x = [x, x, x, x, x, x, x, x, x, x, x, x, x, x]"
  by (simp add: eval_nat_numeral)

lemma forEach_encode:
  "forEach encode data s =
     s\<lparr>checksum := checksum s + sum_list data,
       queue := queue s @ concat (map (\<lambda>b. map ratio (spec_byte b)) data)\<rparr>"
  unfolding forEach_def
proof (induction data arbitrary: s)
  case Nil
  show ?case by simp
next
  case (Cons b data)
  have "fold encode (b # data) s = fold encode data (encode b s)"
    by simp
  also have "\<dots> =
      (encode b s)\<lparr>checksum := checksum (encode b s) + sum_list data,
        queue := queue (encode b s) @ concat (map (\<lambda>b. map ratio (spec_byte b)) data)\<rparr>"
    by (rule Cons.IH)
  also have "\<dots> =
      s\<lparr>checksum := checksum s + sum_list (b # data),
        queue := queue s @ concat (map (\<lambda>b. map ratio (spec_byte b)) (b # data))\<rparr>"
    by (simp add: encode_def encode_bits_spec)
  finally show ?case .
qed

lemma flashnetSend_eq:
  "flashnetSend pw data e =
     \<lparr>state = False,
      checksum = sum_list data + sum_list data mod 256,
      queue = map ratio (spec_frame data),
      pulsewidth = pw, elem = e, timer = True, assigned = []\<rparr>"
  by (simp add: flashnetSend_def Let_def forEach_encode encode_def encode_bits_spec init_def
      and_255 spec_frame_def spec_checksum_def map_concat comp_def replicate_14)

lemma ratio_spec_byte:
  "map ratio (spec_byte b) =
     map (\<lambda>k. if (b div 2 ^ k) mod 2 = 1 then 2 else 1) [7, 6, 5, 4, 3, 2, 1, 0::nat]"
  unfolding spec_byte_def spec_bit_def list.map if_distrib [of ratio] ratio.simps ..

lemma queue_explicit:
  "queue (flashnetSend pw data e) =
     replicate 14 1 @ [3]
     @ concat (map (\<lambda>b. map (\<lambda>k. if (b div 2 ^ k) mod 2 = 1 then 2 else 1)
                              [7, 6, 5, 4, 3, 2, 1, 0::nat])
                   (data @ [sum_list data mod 256]))
     @ [4]"
  unfolding ratio_spec_byte [symmetric]
  by (simp add: flashnetSend_eq spec_frame_def spec_checksum_def map_concat comp_def)

lemma queue_length: "length (queue (flashnetSend pw data e)) = 8 * length data + 24"
  by (simp add: flashnetSend_eq spec_frame_def spec_byte_def length_concat comp_def
      sum_list_triv)

subsection \<open>Reading a byte back from its pulses\<close>

lemma byte_bits:
  assumes "0 \<le> b" "b \<le> (255::int)"
  shows "128 * (b div 128 mod 2) + 64 * (b div 64 mod 2) + 32 * (b div 32 mod 2)
       + 16 * (b div 16 mod 2) + 8 * (b div 8 mod 2) + 4 * (b div 4 mod 2)
       + 2 * (b div 2 mod 2) + b mod 2 = b"
proof -
  have "b div 2 div 2 = b div 4" "b div 4 div 2 = b div 8" "b div 8 div 2 = b div 16"
    "b div 16 div 2 = b div 32" "b div 32 div 2 = b div 64" "b div 64 div 2 = b div 128"
    "b div 128 div 2 = 0"
    using assms by (simp_all add: div_mult2_eq [symmetric])
  then show ?thesis
    using div_mult_mod_eq [of b 2] div_mult_mod_eq [of "b div 2" 2]
      div_mult_mod_eq [of "b div 4" 2] div_mult_mod_eq [of "b div 8" 2]
      div_mult_mod_eq [of "b div 16" 2] div_mult_mod_eq [of "b div 32" 2]
      div_mult_mod_eq [of "b div 64" 2] div_mult_mod_eq [of "b div 128" 2]
    by linarith
qed

lemma ratio_spec_bit_minus: "ratio (spec_bit b k) - 1 = (b div 2 ^ k) mod 2"
proof -
  have "(b div 2 ^ k) mod 2 = 0 \<or> (b div 2 ^ k) mod 2 = 1"
    by presburger
  then show ?thesis
    by (auto simp add: spec_bit_def)
qed

lemma pulses_to_byte_8:
  "pulses_to_byte [r7, r6, r5, r4, r3, r2, r1, r0] =
     128 * (r7 - 1) + 64 * (r6 - 1) + 32 * (r5 - 1) + 16 * (r4 - 1)
       + 8 * (r3 - 1) + 4 * (r2 - 1) + 2 * (r1 - 1) + (r0 - 1)"
  by (simp add: pulses_to_byte_def)

lemma pulses_to_byte_spec:
  assumes "is_byte b"
  shows "pulses_to_byte (map ratio (spec_byte b)) = b"
proof -
  have "pulses_to_byte (map ratio (spec_byte b)) =
      128 * (b div 2 ^ 7 mod 2) + 64 * (b div 2 ^ 6 mod 2) + 32 * (b div 2 ^ 5 mod 2)
       + 16 * (b div 2 ^ 4 mod 2) + 8 * (b div 2 ^ 3 mod 2) + 4 * (b div 2 ^ 2 mod 2)
       + 2 * (b div 2 ^ 1 mod 2) + b div 2 ^ 0 mod 2"
    unfolding spec_byte_def list.map pulses_to_byte_8 ratio_spec_bit_minus ..
  also have "\<dots> = 128 * (b div 128 mod 2) + 64 * (b div 64 mod 2) + 32 * (b div 32 mod 2)
       + 16 * (b div 16 mod 2) + 8 * (b div 8 mod 2) + 4 * (b div 4 mod 2)
       + 2 * (b div 2 mod 2) + b mod 2"
    by simp
  also have "\<dots> = b"
    using assms by (intro byte_bits) (simp_all add: is_byte_def)
  finally show ?thesis .
qed

subsection \<open>The interval callback, tick by tick\<close>

lemma fire_off: "\<not> timer s \<Longrightarrow> (fire ^^ t) s = s"
  by (induction t) (simp_all add: fire_def)

lemma fire_empty:
  "timer s \<Longrightarrow> queue s = [] \<Longrightarrow>
   fire s = s\<lparr>elem := (elem s)\<lparr>style_backgroundColor := ''#ccc''\<rparr>,
              assigned := assigned s @ [''#ccc''], timer := False\<rparr>"
  by (simp add: fire_def tick_def)

lemma fire_hold:
  "timer s \<Longrightarrow> queue s = w # rest \<Longrightarrow> 1 < w \<Longrightarrow> fire s = s\<lparr>queue := (w - 1) # rest\<rparr>"
  by (simp add: fire_def tick_def)

lemma fire_pop:
  "timer s \<Longrightarrow> queue s = w # rest \<Longrightarrow> w \<le> 1 \<Longrightarrow>
   fire s = s\<lparr>queue := rest, state := \<not> state s,
              elem := (elem s)\<lparr>style_backgroundColor := (if \<not> state s then ''#888'' else ''#eee'')\<rparr>,
              assigned := assigned s @ [if \<not> state s then ''#888'' else ''#eee'']\<rparr>"
  by (simp add: fire_def tick_def Let_def)

lemma pulse_hold:
  "timer s \<Longrightarrow> queue s = w # rest \<Longrightarrow> int k < w \<Longrightarrow>
   (fire ^^ k) s = s\<lparr>queue := (w - int k) # rest\<rparr>"
proof (induction k)
  case 0
  then show ?case by simp
next
  case (Suc k)
  then have eq: "(fire ^^ k) s = s\<lparr>queue := (w - int k) # rest\<rparr>"
    by simp
  have "fire (s\<lparr>queue := (w - int k) # rest\<rparr>) = s\<lparr>queue := (w - int k - 1) # rest\<rparr>"
    using Suc.prems by (subst fire_hold [where w = "w - int k" and rest = rest]) simp_all
  then show ?case
    by (simp add: eq algebra_simps)
qed

lemma pulse_end:
  assumes "timer s" and "queue s = w # rest" and "1 \<le> w"
  shows "(fire ^^ nat w) s =
     s\<lparr>queue := rest, state := \<not> state s,
       elem := (elem s)\<lparr>style_backgroundColor := (if \<not> state s then ''#888'' else ''#eee'')\<rparr>,
       assigned := assigned s @ [if \<not> state s then ''#888'' else ''#eee'']\<rparr>"
proof -
  define k where "k = nat (w - 1)"
  have k: "nat w = Suc k" "int k < w" "w - int k = 1"
    using assms(3) by (simp_all add: k_def)
  have "(fire ^^ k) s = s\<lparr>queue := 1 # rest\<rparr>"
    using pulse_hold [OF assms(1,2) k(2)] k(3) by simp
  then have "(fire ^^ nat w) s = fire (s\<lparr>queue := 1 # rest\<rparr>)"
    by (simp add: k(1))
  also have "\<dots> = s\<lparr>queue := rest, state := \<not> state s,
       elem := (elem s)\<lparr>style_backgroundColor := (if \<not> state s then ''#888'' else ''#eee'')\<rparr>,
       assigned := assigned s @ [if \<not> state s then ''#888'' else ''#eee'']\<rparr>"
    using assms(1) by (subst fire_pop [where w = 1 and rest = rest]) simp_all
  finally show ?thesis .
qed

lemma boundary_colours_Suc:
  "boundary_colours (Suc k) = boundary_colours k @ [boundary_colour (Suc k)]"
  by (simp add: boundary_colours_def)

lemma sum_list_pos: "list_all (\<lambda>w. 1 \<le> w) q \<Longrightarrow> 0 \<le> sum_list (q :: int list)"
  by (induction q) auto

lemma timer_iff:
  "timer s \<Longrightarrow> list_all (\<lambda>w. 1 \<le> w) (queue s) \<Longrightarrow>
   timer ((fire ^^ t) s) = (t \<le> nat (sum_list (queue s)))"
proof (induction q \<equiv> "queue s" arbitrary: s t)
  case Nil
  show ?case
  proof (cases t)
    case 0
    then show ?thesis using Nil by simp
  next
    case (Suc t')
    have "(fire ^^ t) s = (fire ^^ t') (fire s)"
      by (simp add: Suc funpow_swap1)
    also have "\<dots> = fire s"
      using Nil by (intro fire_off) (simp add: fire_empty)
    finally show ?thesis
      using Nil Suc by (simp add: fire_empty)
  qed
next
  case (Cons w rest)
  from Cons.prems(2) Cons.hyps(2) [symmetric]
  have w: "1 \<le> w" and rest: "list_all (\<lambda>w. 1 \<le> w) rest"
    by simp_all
  have nonneg: "0 \<le> sum_list rest"
    using rest by (rule sum_list_pos)
  show ?case
  proof (cases "t < nat w")
    case True
    then have "int t < w" by simp
    from pulse_hold [OF Cons.prems(1) Cons.hyps(2) [symmetric] this]
    have "timer ((fire ^^ t) s)"
      using Cons.prems(1) by simp
    moreover have "t \<le> nat (sum_list (queue s))"
      using True nonneg Cons.hyps(2) [symmetric] by simp
    ultimately show ?thesis by simp
  next
    case False
    define t' where "t' = t - nat w"
    define s' where "s' = (fire ^^ nat w) s"
    have t: "t = t' + nat w"
      using False by (simp add: t'_def)
    have s': "s' = s\<lparr>queue := rest, state := \<not> state s,
       elem := (elem s)\<lparr>style_backgroundColor := (if \<not> state s then ''#888'' else ''#eee'')\<rparr>,
       assigned := assigned s @ [if \<not> state s then ''#888'' else ''#eee'']\<rparr>"
      unfolding s'_def by (rule pulse_end [OF Cons.prems(1) Cons.hyps(2) [symmetric] w])
    have "(fire ^^ t) s = (fire ^^ t') s'"
      by (simp add: t s'_def funpow_add)
    moreover have "timer ((fire ^^ t') s') = (t' \<le> nat (sum_list (queue s')))"
      by (rule Cons.hyps(1)) (use s' rest Cons.prems(1) in simp_all)
    moreover have "(t' \<le> nat (sum_list (queue s'))) = (t \<le> nat (sum_list (queue s)))"
    proof -
      have "nat (w + sum_list rest) = nat w + nat (sum_list rest)"
        using w nonneg by (simp add: nat_add_distrib)
      then show ?thesis
        by (simp add: s' Cons.hyps(2) [symmetric] t)
    qed
    ultimately show ?thesis by simp
  qed
qed

lemma tx_inv_fire: "tx_inv m e s \<Longrightarrow> tx_inv m e (fire s)"
proof (cases "timer s")
  case False
  assume "tx_inv m e s"
  with False show ?thesis by (simp add: fire_def)
next
  case True
  assume inv: "tx_inv m e s"
  show ?thesis
  proof (cases "queue s")
    case Nil
    with inv True show ?thesis
      by (simp add: fire_empty tx_inv_def)
  next
    case (Cons w rest)
    show ?thesis
    proof (cases "w \<le> 1")
      case False
      then have "1 < w" by simp
      from fire_hold [OF True Cons this] inv True Cons show ?thesis
        by (simp add: tx_inv_def)
    next
      case le: True
      have k: "m - length rest = Suc (m - length (queue s))"
      proof -
        have "Suc (length rest) \<le> m"
          using inv Cons by (simp add: tx_inv_def)
        then show ?thesis
          by (simp add: Cons Suc_diff_Suc less_eq_Suc_le)
      qed
      from fire_pop [OF True Cons le] inv True Cons show ?thesis
        by (simp add: tx_inv_def k boundary_colours_Suc boundary_colour_def)
    qed
  qed
qed

lemma tx_inv_funpow: "tx_inv m e s \<Longrightarrow> tx_inv m e ((fire ^^ t) s)"
  by (induction t) (simp_all add: tx_inv_fire)

lemma tx_inv_start: "tx_inv (length (queue (flashnetSend pw data e))) e (flashnetSend pw data e)"
  by (simp add: tx_inv_def flashnetSend_eq boundary_colours_def)

subsection \<open>The claims\<close>

text \<open>
  C1. For every payload of at most 70 bytes (each in 0..255), the queue that
  \<open>flashnetSend\<close> builds is the specification's frame with each symbol at its
  canonical ratio (SYNC 1, BIT0 1, BIT1 2, START 3, END 4): fourteen pulses of width 1,
  one of width 3, then for each payload byte in order, and last for the checksum byte
  \<open>sum(payload) mod 256\<close>, its bits 7 down to 0 as width 2 for a 1-bit and width 1
  for a 0-bit, then one pulse of width 4.
\<close>

theorem C1_queue_is_frame:
  assumes "length data \<le> 70" and "list_all is_byte data"
  shows "queue (flashnetSend pw data e) = map ratio (spec_frame data)
       \<and> queue (flashnetSend pw data e) =
           replicate 14 1 @ [3]
           @ concat (map (\<lambda>b. map (\<lambda>k. if (b div 2 ^ k) mod 2 = 1 then 2 else 1)
                                    [7, 6, 5, 4, 3, 2, 1, 0::nat])
                         (data @ [sum_list data mod 256]))
           @ [4]"
  using queue_explicit [of pw data e] by (simp add: flashnetSend_eq)

theorem C1_queue_is_frame_witness:
  "length [0x48, 0x65 :: int] \<le> 70 \<and> list_all is_byte [0x48, 0x65]
   \<and> queue (flashnetSend 80 [0x48, 0x65] \<lparr>style_backgroundColor = ''#fff'', props = ()\<rparr>) =
       [1,1,1,1,1,1,1,1,1,1,1,1,1,1, 3,
        1,2,1,1,2,1,1,1,  1,2,2,1,1,2,1,2,  2,1,2,1,2,2,1,2,  4]"
  using C1_queue_is_frame [of "[0x48, 0x65]" 80 "\<lparr>style_backgroundColor = ''#fff'', props = ()\<rparr>"]
  by (simp add: is_byte_def replicate_14 spec_frame_def spec_byte_def spec_bit_def
      spec_checksum_def)

lemma forEach_queue_length:
  "length (queue (forEach encode data (init pw e))) = 15 + 8 * length data"
  by (simp add: forEach_encode init_def spec_byte_def length_concat comp_def sum_list_triv)

lemma mod_256_is_byte: "is_byte (x mod 256)"
  by (simp add: is_byte_def)

text \<open>
  C2. For every payload of bytes (each in 0..255), \<open>checksum & 0xff\<close> after all the
  payload bytes were accumulated is \<open>sum(payload) mod 256\<close>; the queue is the data
  pulses, then the eight pulses \<open>encode\<close> makes of that value, then the end pulse of
  width 4; and the eight pulses just before the end pulse read back as
  \<open>sum(payload) mod 256\<close>.
\<close>

theorem C2_checksum_byte:
  assumes "list_all is_byte data"
  shows "checksum (forEach encode data (init pw e)) AND 0xff = sum_list data mod 256
       \<and> queue (flashnetSend pw data e) =
           queue (forEach encode data (init pw e))
             @ encode_bits (sum_list data mod 256) 0x80 [] @ [4]
       \<and> pulses_to_byte (take 8 (drop (15 + 8 * length data) (queue (flashnetSend pw data e))))
           = sum_list data mod 256
       \<and> drop (23 + 8 * length data) (queue (flashnetSend pw data e)) = [4]"
proof -
  let ?q1 = "queue (forEach encode data (init pw e))"
  let ?c = "sum_list data mod 256"
  have sum: "checksum (forEach encode data (init pw e)) AND 0xff = ?c"
    by (simp add: forEach_encode init_def and_255)
  have q: "queue (flashnetSend pw data e) = ?q1 @ map ratio (spec_byte ?c) @ [4]"
    by (simp add: flashnetSend_def Let_def sum encode_def encode_bits_spec)
  have len1: "length ?q1 = 15 + 8 * length data"
    by (rule forEach_queue_length)
  have len8: "length (map ratio (spec_byte ?c)) = 8"
    by (simp add: spec_byte_def)
  have "take 8 (drop (15 + 8 * length data) (queue (flashnetSend pw data e)))
      = map ratio (spec_byte ?c)"
    unfolding q using len1 len8 by simp
  then have byte: "pulses_to_byte (take 8 (drop (15 + 8 * length data)
      (queue (flashnetSend pw data e)))) = ?c"
    using pulses_to_byte_spec [OF mod_256_is_byte [of "sum_list data"]] by simp
  have "23 + 8 * length data = length (?q1 @ map ratio (spec_byte ?c))"
    using len1 len8 by simp
  then have last: "drop (23 + 8 * length data) (queue (flashnetSend pw data e)) = [4]"
    unfolding q by (simp only: append_assoc [symmetric] drop_append) simp
  from sum q byte last show ?thesis
    by (simp add: encode_bits_spec)
qed

theorem C2_checksum_byte_witness:
  "list_all is_byte [200, 100, 7]
   \<and> checksum (forEach encode [200, 100, 7]
        (init 80 \<lparr>style_backgroundColor = ''#fff'', props = ()\<rparr>)) AND 0xff = 51
   \<and> pulses_to_byte (take 8 (drop 39
        (queue (flashnetSend 80 [200, 100, 7] \<lparr>style_backgroundColor = ''#fff'', props = ()\<rparr>))))
       = 51"
proof -
  have bytes: "list_all is_byte [200, 100, 7]"
    by (simp add: is_byte_def)
  note inst = C2_checksum_byte [OF bytes,
      of 80 "\<lparr>style_backgroundColor = ''#fff'', props = ()\<rparr>"]
  from bytes inst [THEN conjunct1] inst [THEN conjunct2, THEN conjunct2, THEN conjunct1]
  show ?thesis by simp
qed

text \<open>
  C3, as the specification states it, fails on the code: the specification's encoder
  rejects a payload of 71 bytes with \<open>PayloadTooLarge\<close> and encodes nothing, while
  \<open>flashnetSend\<close> has no length check: called with 71 zero bytes it returns with the
  interval scheduled and 592 pulses queued, not the 15 of the initial queue.
\<close>

theorem C3_length_71_counterexample:
  "spec_encode (replicate 71 0) = Inl PayloadTooLarge
   \<and> timer (flashnetSend 80 (replicate 71 0) \<lparr>style_backgroundColor = ''#fff'', props = ()\<rparr>)
   \<and> length (queue (flashnetSend 80 (replicate 71 0)
         \<lparr>style_backgroundColor = ''#fff'', props = ()\<rparr>)) = 592
   \<and> queue (flashnetSend 80 (replicate 71 0) \<lparr>style_backgroundColor = ''#fff'', props = ()\<rparr>)
       \<noteq> queue (init 80 \<lparr>style_backgroundColor = ''#fff'', props = ()\<rparr>)"
proof (intro conjI)
  let ?s = "flashnetSend 80 (replicate 71 0) \<lparr>style_backgroundColor = ''#fff'', props = ()\<rparr>"
  show "spec_encode (replicate 71 0) = Inl PayloadTooLarge"
    by (simp add: spec_encode_def)
  show "timer ?s"
    by (simp add: flashnetSend_eq)
  show len: "length (queue ?s) = 592"
    by (simp add: queue_length)
  have "length (queue (init 80 \<lparr>style_backgroundColor = ''#fff'', props = ()\<rparr>)) = 15"
    by (simp add: init_def)
  with len show "queue ?s \<noteq> queue (init 80 \<lparr>style_backgroundColor = ''#fff'', props = ()\<rparr>)"
    by auto
qed

text \<open>
  C3, amended. \<open>flashnetSend\<close> checks no length and has no \<open>PayloadTooLarge\<close>
  failure: for a payload of bytes of any length \<open>n\<close> (71 included) the call returns
  with the interval scheduled and the complete frame of \<open>8 n + 24\<close> pulses queued; for a
  payload of at most 70 bytes (so for exactly 70) that queue is the frame the
  specification's encoder gives.
\<close>

theorem C3_any_length_is_encoded:
  assumes "list_all is_byte data"
  shows "timer (flashnetSend pw data e)
       \<and> length (queue (flashnetSend pw data e)) = 8 * length data + 24
       \<and> queue (flashnetSend pw data e) = map ratio (spec_frame data)
       \<and> (length data \<le> 70 \<longrightarrow>
            map_sum id (map ratio) (spec_encode data) = Inr (queue (flashnetSend pw data e)))"
  by (simp add: queue_length) (simp add: flashnetSend_eq spec_encode_def)

theorem C3_any_length_is_encoded_witness:
  "list_all is_byte (replicate 70 0) \<and> length (replicate 70 (0::int)) \<le> 70
   \<and> timer (flashnetSend 80 (replicate 70 0) \<lparr>style_backgroundColor = ''#fff'', props = ()\<rparr>)
   \<and> length (queue (flashnetSend 80 (replicate 70 0)
         \<lparr>style_backgroundColor = ''#fff'', props = ()\<rparr>)) = 584
   \<and> map_sum id (map ratio) (spec_encode (replicate 70 0)) =
       Inr (queue (flashnetSend 80 (replicate 70 0)
         \<lparr>style_backgroundColor = ''#fff'', props = ()\<rparr>))"
proof -
  have bytes: "list_all is_byte (replicate 70 0)"
    by (simp add: list_all_iff is_byte_def)
  note inst = C3_any_length_is_encoded [OF bytes,
      of 80 "\<lparr>style_backgroundColor = ''#fff'', props = ()\<rparr>"]
  from bytes inst [THEN conjunct1] inst [THEN conjunct2, THEN conjunct1]
    inst [THEN conjunct2, THEN conjunct2, THEN conjunct2]
  show ?thesis by simp
qed

text \<open>
  C4. For the payload \<open>[0x48, 0x65, 0x6C, 0x6C, 0x6F]\<close> the checksum byte that the
  code encodes (\<open>checksum & 0xff\<close> after the data bytes) is \<open>0xF4\<close>, and the queue is
  14 SYNC pulses, one START pulse, the bits of \<open>0x48, 0x65, 0x6C, 0x6C, 0x6F, 0xF4\<close>
  most significant first as BIT0/BIT1 pulses, and one END pulse; the widths are written
  out as well.
\<close>

theorem C4_hello_frame:
  "checksum (forEach encode [0x48, 0x65, 0x6C, 0x6C, 0x6F] (init pw e)) AND 0xff = 0xF4
   \<and> queue (flashnetSend pw [0x48, 0x65, 0x6C, 0x6C, 0x6F] e) =
       map ratio (replicate 14 SYNC @ [START]
         @ spec_byte 0x48 @ spec_byte 0x65 @ spec_byte 0x6C @ spec_byte 0x6C
         @ spec_byte 0x6F @ spec_byte 0xF4 @ [END])
   \<and> queue (flashnetSend pw [0x48, 0x65, 0x6C, 0x6C, 0x6F] e) =
       [1,1,1,1,1,1,1,1,1,1,1,1,1,1, 3,
        1,2,1,1,2,1,1,1,  1,2,2,1,1,2,1,2,  1,2,2,1,2,2,1,1,
        1,2,2,1,2,2,1,1,  1,2,2,1,2,2,2,2,  2,2,2,2,1,2,1,1,
        4]"
proof (intro conjI)
  show "checksum (forEach encode [0x48, 0x65, 0x6C, 0x6C, 0x6F] (init pw e)) AND 0xff = 0xF4"
    by (simp add: forEach_encode init_def and_255)
  show "queue (flashnetSend pw [0x48, 0x65, 0x6C, 0x6C, 0x6F] e) =
       map ratio (replicate 14 SYNC @ [START]
         @ spec_byte 0x48 @ spec_byte 0x65 @ spec_byte 0x6C @ spec_byte 0x6C
         @ spec_byte 0x6F @ spec_byte 0xF4 @ [END])"
    by (simp add: flashnetSend_eq spec_frame_def spec_checksum_def)
  show "queue (flashnetSend pw [0x48, 0x65, 0x6C, 0x6C, 0x6F] e) =
       [1,1,1,1,1,1,1,1,1,1,1,1,1,1, 3,
        1,2,1,1,2,1,1,1,  1,2,2,1,1,2,1,2,  1,2,2,1,2,2,1,1,
        1,2,2,1,2,2,1,1,  1,2,2,1,2,2,2,2,  2,2,2,2,1,2,1,1,
        4]"
    by (simp add: flashnetSend_eq spec_frame_def spec_byte_def spec_bit_def
        spec_checksum_def replicate_14)
qed

text \<open>
  C5. On a tick of a scheduled transmission whose queue is not empty, the head count
  is decremented; if it has then reached zero (or less) the head is shifted off, the
  light state is flipped and the colour of the new state is assigned to the element;
  otherwise only the decremented head is stored and the state is held. So a pulse
  queued with width \<open>w \<ge> 1\<close> holds the state for exactly \<open>w\<close> ticks: after every
  \<open>k < w\<close> ticks nothing but the head count has changed, and the \<open>w\<close>-th tick flips.
\<close>

theorem C5_tick_pulse:
  assumes "timer s" and "queue s = w # rest"
  shows "fire s =
           (if w - 1 \<le> 0 then
              s\<lparr>queue := rest, state := \<not> state s,
                elem := (elem s)\<lparr>style_backgroundColor :=
                          (if \<not> state s then ''#888'' else ''#eee'')\<rparr>,
                assigned := assigned s @ [if \<not> state s then ''#888'' else ''#eee'']\<rparr>
            else s\<lparr>queue := (w - 1) # rest\<rparr>)
       \<and> (1 \<le> w \<longrightarrow>
            (\<forall>k. int k < w \<longrightarrow> (fire ^^ k) s = s\<lparr>queue := (w - int k) # rest\<rparr>)
            \<and> (fire ^^ nat w) s =
                s\<lparr>queue := rest, state := \<not> state s,
                  elem := (elem s)\<lparr>style_backgroundColor :=
                            (if \<not> state s then ''#888'' else ''#eee'')\<rparr>,
                  assigned := assigned s @ [if \<not> state s then ''#888'' else ''#eee'']\<rparr>)"
proof (intro conjI impI allI)
  show "fire s =
           (if w - 1 \<le> 0 then
              s\<lparr>queue := rest, state := \<not> state s,
                elem := (elem s)\<lparr>style_backgroundColor :=
                          (if \<not> state s then ''#888'' else ''#eee'')\<rparr>,
                assigned := assigned s @ [if \<not> state s then ''#888'' else ''#eee'']\<rparr>
            else s\<lparr>queue := (w - 1) # rest\<rparr>)"
    using assms by (simp add: fire_def tick_def Let_def)
next
  fix k
  assume "int k < w"
  then show "(fire ^^ k) s = s\<lparr>queue := (w - int k) # rest\<rparr>"
    by (rule pulse_hold [OF assms])
next
  assume "1 \<le> w"
  then show "(fire ^^ nat w) s =
                s\<lparr>queue := rest, state := \<not> state s,
                  elem := (elem s)\<lparr>style_backgroundColor :=
                            (if \<not> state s then ''#888'' else ''#eee'')\<rparr>,
                  assigned := assigned s @ [if \<not> state s then ''#888'' else ''#eee'']\<rparr>"
    by (rule pulse_end [OF assms])
qed

theorem C5_tick_pulse_witness:
  "timer \<lparr>state = False, checksum = 0, queue = [3, 1, 4], pulsewidth = 80,
      elem = \<lparr>style_backgroundColor = ''#eee'', props = ()\<rparr>, timer = True,
      assigned = [''#888'', ''#eee'']\<rparr>
   \<and> (fire ^^ 1) \<lparr>state = False, checksum = 0, queue = [3, 1, 4], pulsewidth = 80,
      elem = \<lparr>style_backgroundColor = ''#eee'', props = ()\<rparr>, timer = True,
      assigned = [''#888'', ''#eee'']\<rparr>
     = \<lparr>state = False, checksum = 0, queue = [2, 1, 4], pulsewidth = 80,
      elem = \<lparr>style_backgroundColor = ''#eee'', props = ()\<rparr>, timer = True,
      assigned = [''#888'', ''#eee'']\<rparr>
   \<and> (fire ^^ 2) \<lparr>state = False, checksum = 0, queue = [3, 1, 4], pulsewidth = 80,
      elem = \<lparr>style_backgroundColor = ''#eee'', props = ()\<rparr>, timer = True,
      assigned = [''#888'', ''#eee'']\<rparr>
     = \<lparr>state = False, checksum = 0, queue = [1, 1, 4], pulsewidth = 80,
      elem = \<lparr>style_backgroundColor = ''#eee'', props = ()\<rparr>, timer = True,
      assigned = [''#888'', ''#eee'']\<rparr>
   \<and> (fire ^^ 3) \<lparr>state = False, checksum = 0, queue = [3, 1, 4], pulsewidth = 80,
      elem = \<lparr>style_backgroundColor = ''#eee'', props = ()\<rparr>, timer = True,
      assigned = [''#888'', ''#eee'']\<rparr>
     = \<lparr>state = True, checksum = 0, queue = [1, 4], pulsewidth = 80,
      elem = \<lparr>style_backgroundColor = ''#888'', props = ()\<rparr>, timer = True,
      assigned = [''#888'', ''#eee'', ''#888'']\<rparr>"
proof -
  let ?s = "\<lparr>state = False, checksum = 0, queue = [3, 1, 4], pulsewidth = 80,
      elem = \<lparr>style_backgroundColor = ''#eee'', props = ()\<rparr>, timer = True,
      assigned = [''#888'', ''#eee'']\<rparr>"
  have t: "timer ?s" and q: "queue ?s = 3 # [1, 4]"
    by simp_all
  note inst = C5_tick_pulse [OF t q]
  have w: "(1::int) \<le> 3" by simp
  note pulse = inst [THEN conjunct2, rule_format, OF w]
  have "(fire ^^ 1) ?s = ?s\<lparr>queue := (3 - int 1) # [1, 4]\<rparr>"
    by (rule pulse [THEN conjunct1, rule_format]) simp
  moreover have "(fire ^^ 2) ?s = ?s\<lparr>queue := (3 - int 2) # [1, 4]\<rparr>"
    by (rule pulse [THEN conjunct1, rule_format]) simp
  moreover have "(fire ^^ 3) ?s = (fire ^^ nat 3) ?s"
    by simp
  ultimately show ?thesis
    using pulse [THEN conjunct2] by simp
qed

text \<open>
  C6. While the interval is scheduled, a tick leaves it scheduled exactly when the
  queue was not empty, so nothing but the exhaustion of the queue stops the ticking;
  the tick that finds the queue empty assigns the neutral colour \<open>#ccc\<close> and clears
  the timer, and no later tick changes anything.
\<close>

theorem C6_queue_exhaustion_stops:
  assumes "timer s"
  shows "timer (fire s) = (queue s \<noteq> [])
       \<and> (queue s = [] \<longrightarrow>
            fire s = s\<lparr>elem := (elem s)\<lparr>style_backgroundColor := ''#ccc''\<rparr>,
                       assigned := assigned s @ [''#ccc''], timer := False\<rparr>
            \<and> (\<forall>t. (fire ^^ t) (fire s) = fire s))"
proof (intro conjI impI allI)
  show "timer (fire s) = (queue s \<noteq> [])"
    using assms by (simp add: fire_def tick_def Let_def split: list.split)
next
  assume empty: "queue s = []"
  show eq: "fire s = s\<lparr>elem := (elem s)\<lparr>style_backgroundColor := ''#ccc''\<rparr>,
                       assigned := assigned s @ [''#ccc''], timer := False\<rparr>"
    by (rule fire_empty [OF assms empty])
  fix t
  show "(fire ^^ t) (fire s) = fire s"
    by (rule fire_off) (simp add: eq)
qed

theorem C6_queue_exhaustion_stops_witness:
  "timer \<lparr>state = True, checksum = 0, queue = [], pulsewidth = 80,
      elem = \<lparr>style_backgroundColor = ''#888'', props = ()\<rparr>, timer = True,
      assigned = [''#888'']\<rparr>
   \<and> fire \<lparr>state = True, checksum = 0, queue = [], pulsewidth = 80,
      elem = \<lparr>style_backgroundColor = ''#888'', props = ()\<rparr>, timer = True,
      assigned = [''#888'']\<rparr>
     = \<lparr>state = True, checksum = 0, queue = [], pulsewidth = 80,
      elem = \<lparr>style_backgroundColor = ''#ccc'', props = ()\<rparr>, timer = False,
      assigned = [''#888'', ''#ccc'']\<rparr>
   \<and> (fire ^^ 5) \<lparr>state = True, checksum = 0, queue = [], pulsewidth = 80,
      elem = \<lparr>style_backgroundColor = ''#ccc'', props = ()\<rparr>, timer = False,
      assigned = [''#888'', ''#ccc'']\<rparr>
     = \<lparr>state = True, checksum = 0, queue = [], pulsewidth = 80,
      elem = \<lparr>style_backgroundColor = ''#ccc'', props = ()\<rparr>, timer = False,
      assigned = [''#888'', ''#ccc'']\<rparr>"
proof -
  let ?s = "\<lparr>state = True, checksum = 0, queue = [], pulsewidth = 80,
      elem = \<lparr>style_backgroundColor = ''#888'', props = ()\<rparr>, timer = True,
      assigned = [''#888'']\<rparr>"
  have t: "timer ?s" and q: "queue ?s = []"
    by simp_all
  note inst = C6_queue_exhaustion_stops [OF t, THEN conjunct2, rule_format, OF q]
  from inst [THEN conjunct1] inst [THEN conjunct2, rule_format, of 5]
  show ?thesis by simp
qed

text \<open>
  C7. The queue and the checksum that \<open>flashnetSend\<close> builds are determined by the
  payload alone: two calls with the same payload, whatever their pulse widths and
  elements, build the same queue, the same checksum and the same checksum byte; and
  building the queue assigns nothing to the element, which is after the call what it was
  before, with \<open>state\<close> still at its initial value.
\<close>

theorem C7_encoding_depends_on_payload_only:
  "queue (flashnetSend pw1 data e1) = queue (flashnetSend pw2 data e2)
   \<and> checksum (flashnetSend pw1 data e1) = checksum (flashnetSend pw2 data e2)
   \<and> checksum (forEach encode data (init pw1 e1)) AND 0xff
       = checksum (forEach encode data (init pw2 e2)) AND 0xff
   \<and> elem (flashnetSend pw1 data e1) = e1
   \<and> assigned (flashnetSend pw1 data e1) = []
   \<and> state (flashnetSend pw1 data e1) = False"
  by (simp add: flashnetSend_eq forEach_encode init_def)

lemma ratio_pos: "1 \<le> ratio x"
  by (cases x) simp_all

lemma queue_widths_pos: "list_all (\<lambda>w. 1 \<le> w) (queue (flashnetSend pw data e))"
  by (simp add: flashnetSend_eq list_all_iff ratio_pos)

lemma transmission_timer:
  "timer ((fire ^^ t) (flashnetSend pw data e))
     = (t \<le> nat (sum_list (queue (flashnetSend pw data e))))"
  by (rule timer_iff [OF _ queue_widths_pos]) (simp add: flashnetSend_eq)

lemma transmission_inv:
  "tx_inv (8 * length data + 24) e ((fire ^^ t) (flashnetSend pw data e))"
proof -
  have "tx_inv (length (queue (flashnetSend pw data e))) e
      ((fire ^^ t) (flashnetSend pw data e))"
    by (rule tx_inv_funpow [OF tx_inv_start])
  then show ?thesis
    by (simp add: queue_length)
qed

text \<open>
  C8. Throughout a transmission of \<open>m = 8 n + 24\<close> pulses, after any number \<open>t\<close> of
  ticks: while the interval is scheduled and \<open>k\<close> pulses have been shifted off the
  queue, the colours assigned so far are exactly one per pulse boundary, the \<open>j\<close>-th
  being \<open>#888\<close> for odd \<open>j\<close> and \<open>#eee\<close> for even \<open>j\<close>, and the element shows the
  \<open>k\<close>-th of them (its colour from before the call while \<open>k = 0\<close>); once the timer is
  cleared the assigned colours are those \<open>m\<close> followed by one \<open>#ccc\<close>, which the
  element shows. The timer is cleared after the ticks beyond the sum of the queued
  widths, so \<open>#ccc\<close> comes only at completion and no other colour is ever assigned.
\<close>

theorem C8_colours_alternate:
  "let s0 = flashnetSend pw data e;
       m = 8 * length data + 24;
       s = (fire ^^ t) s0;
       k = m - length (queue s)
   in length (queue s0) = m \<and> length (queue s) \<le> m
      \<and> (if timer s then
            assigned s = boundary_colours k
            \<and> style_backgroundColor (elem s) =
                (if k = 0 then style_backgroundColor e else boundary_colour k)
          else
            assigned s = boundary_colours m @ [''#ccc'']
            \<and> style_backgroundColor (elem s) = ''#ccc'')
      \<and> timer s = (t \<le> nat (sum_list (queue s0)))"
  using transmission_inv [of data e t pw] transmission_timer [of t pw data e]
  unfolding Let_def tx_inv_def by (simp add: queue_length)

lemma frame_sum:
  "sum_list (queue (flashnetSend pw data e)) =
     14 + 3 + 4 + sum_list (map ratio (concat (map spec_byte (data @ [sum_list data mod 256]))))"
  by (simp add: flashnetSend_eq spec_frame_def spec_checksum_def sum_list_replicate)

text \<open>
  C9. For every payload of \<open>n\<close> bytes (each in 0..255) the queue has \<open>8 n + 24\<close>
  pulses before the ticking starts, the sum \<open>S\<close> of their widths is \<open>14 + 3 + 4\<close> plus
  the widths of the \<open>8 (n + 1)\<close> data and checksum bit pulses, and the interval is still
  scheduled after \<open>t\<close> ticks exactly when \<open>t \<le> S\<close>: the transmission ends on tick
  \<open>S + 1\<close>, with the queue empty.
\<close>

theorem C9_tick_count:
  assumes "list_all is_byte data"
  shows "length (queue (flashnetSend pw data e)) = 8 * length data + 24
       \<and> sum_list (queue (flashnetSend pw data e)) =
           14 + 3 + 4
           + sum_list (map ratio (concat (map spec_byte (data @ [sum_list data mod 256]))))
       \<and> (\<forall>t. timer ((fire ^^ t) (flashnetSend pw data e))
                = (t \<le> nat (sum_list (queue (flashnetSend pw data e)))))
       \<and> queue ((fire ^^ (nat (sum_list (queue (flashnetSend pw data e))) + 1))
                  (flashnetSend pw data e)) = []"
proof (intro conjI allI)
  show "length (queue (flashnetSend pw data e)) = 8 * length data + 24"
    by (rule queue_length)
  show "sum_list (queue (flashnetSend pw data e)) =
           14 + 3 + 4
           + sum_list (map ratio (concat (map spec_byte (data @ [sum_list data mod 256]))))"
    by (rule frame_sum)
  show "timer ((fire ^^ t) (flashnetSend pw data e))
                = (t \<le> nat (sum_list (queue (flashnetSend pw data e))))" for t
    by (rule transmission_timer)
  let ?t = "nat (sum_list (queue (flashnetSend pw data e))) + 1"
  have "\<not> timer ((fire ^^ ?t) (flashnetSend pw data e))"
    unfolding transmission_timer by simp
  with transmission_inv [of data e ?t pw]
  show "queue ((fire ^^ ?t) (flashnetSend pw data e)) = []"
    by (simp add: tx_inv_def)
qed

theorem C9_tick_count_witness:
  "list_all is_byte [0x48, 0x65]
   \<and> length (queue (flashnetSend 80 [0x48, 0x65]
         \<lparr>style_backgroundColor = ''#fff'', props = ()\<rparr>)) = 40
   \<and> sum_list (queue (flashnetSend 80 [0x48, 0x65]
         \<lparr>style_backgroundColor = ''#fff'', props = ()\<rparr>)) = 56
   \<and> timer ((fire ^^ 56) (flashnetSend 80 [0x48, 0x65]
         \<lparr>style_backgroundColor = ''#fff'', props = ()\<rparr>))
   \<and> \<not> timer ((fire ^^ 57) (flashnetSend 80 [0x48, 0x65]
         \<lparr>style_backgroundColor = ''#fff'', props = ()\<rparr>))"
proof -
  let ?s0 = "flashnetSend 80 [0x48, 0x65] \<lparr>style_backgroundColor = ''#fff'', props = ()\<rparr>"
  have bytes: "list_all is_byte [0x48, 0x65]"
    by (simp add: is_byte_def)
  note inst = C9_tick_count [OF bytes,
      of 80 "\<lparr>style_backgroundColor = ''#fff'', props = ()\<rparr>"]
  have len: "length (queue ?s0) = 40"
    using inst [THEN conjunct1] by simp
  have total: "sum_list (queue ?s0) = 56"
    using inst [THEN conjunct2, THEN conjunct1]
    by (simp add: spec_byte_def spec_bit_def)
  note ticks = inst [THEN conjunct2, THEN conjunct2, THEN conjunct1, rule_format]
  have "timer ((fire ^^ 56) ?s0)"
    unfolding ticks [of 56] total by simp
  moreover have "\<not> timer ((fire ^^ 57) ?s0)"
    unfolding ticks [of 57] total by simp
  ultimately show ?thesis
    using bytes len total by simp
qed

lemma tick_props: "props (elem (tick s)) = props (elem s)"
  by (simp add: tick_def Let_def split: list.split)

lemma fire_props: "props (elem ((fire ^^ t) s)) = props (elem s)"
  by (induction t) (simp_all add: fire_def tick_props)

text \<open>
  C10. The call itself leaves the element unchanged: on return the element is the one
  passed in and no colour has been assigned yet, so every assignment to
  \<open>elem.style.backgroundColor\<close> happens in the interval callback; and neither one run
  of the callback nor any number of ticks of a transmission changes any property of the
  element other than \<open>style.backgroundColor\<close>.
\<close>

theorem C10_call_leaves_element:
  "elem (flashnetSend pw data e) = e
   \<and> assigned (flashnetSend pw data e) = []
   \<and> props (elem (tick s)) = props (elem s)
   \<and> props (elem ((fire ^^ t) (flashnetSend pw data e))) = props e"
  by (simp add: fire_props tick_props) (simp add: flashnetSend_eq)

end
